theory Spec2Isabelle
  imports Main
begin

section \<open>JavaScript values and primitives\<close>

text \<open>
  The compile pipeline of \<^verbatim>\<open>packages/truffle-compile/run.js\<close> and the legacy shims are
  embedded as HOL functions. A JavaScript string is a sequence of UTF-16 code units; it is
  modelled as a \<^typ>\<open>string\<close>, one \<^typ>\<open>char\<close> per code unit (the code only ever
  compares against ASCII characters). A \<^verbatim>\<open>throw\<close> is a value of \<open>js_error\<close>
  on the left of a sum.
\<close>

datatype js_error = TypeError | ReferenceError | CompileError string

subsection \<open>Strings\<close>

definition backslash :: char where
  "backslash = CHR 0x5C"

definition dquote :: char where
  "dquote = CHR 0x22"

text \<open>\<^verbatim>\<open>s.replace(/c/g, t)\<close> for a one-character pattern: every occurrence is replaced.\<close>

primrec replace_every :: "char \<Rightarrow> string \<Rightarrow> string \<Rightarrow> string" where
  "replace_every c t [] = []"
| "replace_every c t (x # xs) =
     (if x = c then t @ replace_every c t xs else x # replace_every c t xs)"

text \<open>\<^verbatim>\<open>s.replace("c", t)\<close> with a string pattern: only the first occurrence is replaced.\<close>

primrec replace_first :: "char \<Rightarrow> string \<Rightarrow> string \<Rightarrow> string" where
  "replace_first c t [] = []"
| "replace_first c t (x # xs) =
     (if x = c then t @ xs else x # replace_first c t xs)"

text \<open>
  \<^verbatim>\<open>s.substring(a, b)\<close>: both indices are clamped to \<open>0..length\<close> and swapped when
  \<open>a > b\<close>; \<^verbatim>\<open>s.substring(a)\<close> runs to the end of the string.
\<close>

definition clamp_index :: "string \<Rightarrow> int \<Rightarrow> nat" where
  "clamp_index s i = min (nat i) (length s)"

definition js_substring :: "string \<Rightarrow> int \<Rightarrow> int \<Rightarrow> string" where
  "js_substring s a b =
     (let lo = min (clamp_index s a) (clamp_index s b);
          hi = max (clamp_index s a) (clamp_index s b)
      in take (hi - lo) (drop lo s))"

definition js_substring_from :: "string \<Rightarrow> int \<Rightarrow> string" where
  "js_substring_from s a = drop (clamp_index s a) s"

text \<open>
  \<^verbatim>\<open>s.slice(0, e)\<close>: a negative end counts from the end of the string, and the result
  is empty when the end does not lie after the start.
\<close>

definition js_slice0 :: "string \<Rightarrow> int \<Rightarrow> string" where
  "js_slice0 s e =
     (if e < 0 then take (nat (int (length s) + e)) s else take (nat e) s)"

text \<open>\<^verbatim>\<open>xs.join()\<close>: the elements separated by a comma.\<close>

fun join :: "string list \<Rightarrow> string" where
  "join [] = []"
| "join [x] = x"
| "join (x # y # ys) = x @ '','' @ join (y # ys)"

primrec starts_with :: "string \<Rightarrow> string \<Rightarrow> bool" where
  "starts_with s [] = True"
| "starts_with s (c # t) =
     (case s of [] \<Rightarrow> False | d # s' \<Rightarrow> d = c \<and> starts_with s' t)"

text \<open>\<^verbatim>\<open>s.includes(t)\<close>: \<open>t\<close> occurs in \<open>s\<close> as a contiguous substring.\<close>

primrec js_includes :: "string \<Rightarrow> string \<Rightarrow> bool" where
  "js_includes [] t = (t = [])"
| "js_includes (c # s) t = (starts_with (c # s) t \<or> js_includes s t)"

text \<open>
  \<^verbatim>\<open>s.match(/pragma solidity[^;]*/gm)\<close> followed by \<^verbatim>\<open>[0]\<close>: \<open>None\<close> is the
  \<^verbatim>\<open>null\<close> of a failed match; otherwise the leftmost occurrence of the literal text,
  extended by the longest run of characters other than the semicolon.
\<close>

primrec match_pragma :: "string \<Rightarrow> string option" where
  "match_pragma [] = None"
| "match_pragma (c # s) =
     (if starts_with (c # s) ''pragma solidity''
      then Some (''pragma solidity'' @ takeWhile (\<lambda>x. x \<noteq> CHR '';'') (drop 15 (c # s)))
      else match_pragma s)"

subsection \<open>Objects used as dictionaries\<close>

text \<open>
  An object built by the pipeline is modelled by its own enumerable properties. The code
  merges one-property objects with \<^verbatim>\<open>Object.assign({}, a, b)\<close>, which copies the own
  properties of \<open>a\<close> and then assigns the property of \<open>b\<close>. Assignment to the key
  \<^verbatim>\<open>__proto__\<close> runs the setter inherited from \<^verbatim>\<open>Object.prototype\<close> and creates no own
  property.
\<close>

type_synonym 'v js_object = "string \<Rightarrow> 'v option"

definition object_assign :: "'v js_object \<Rightarrow> string \<times> 'v \<Rightarrow> 'v js_object" where
  "object_assign a b =
     (if fst b = ''__proto__'' then a else a(fst b \<mapsto> snd b))"

text \<open>The property names every plain object inherits from \<^verbatim>\<open>Object.prototype\<close>.\<close>

definition Object_prototype_keys :: "string list" where
  "Object_prototype_keys =
     [''constructor'', ''__defineGetter__'', ''__defineSetter__'', ''hasOwnProperty'',
      ''__lookupGetter__'', ''__lookupSetter__'', ''isPrototypeOf'',
      ''propertyIsEnumerable'', ''toString'', ''valueOf'', ''__proto__'',
      ''toLocaleString'']"

text \<open>
  The value of \<^verbatim>\<open>obj[key]\<close> on an object whose own properties hold numbers: the own
  property, else the member inherited from \<^verbatim>\<open>Object.prototype\<close> (a function or an
  object, never \<^verbatim>\<open>undefined\<close>), else \<^verbatim>\<open>undefined\<close>.
\<close>

datatype js_lookup = Undefined | Index nat | Inherited

definition get_property :: "nat js_object \<Rightarrow> string \<Rightarrow> js_lookup" where
  "get_property obj k =
     (case obj k of
        Some i \<Rightarrow> Index i
      | None \<Rightarrow> if k \<in> set Object_prototype_keys then Inherited else Undefined)"

text \<open>A property key computed from a value that may be \<^verbatim>\<open>undefined\<close>.\<close>

definition property_key :: "string option \<Rightarrow> string" where
  "property_key v = (case v of None \<Rightarrow> ''undefined'' | Some s \<Rightarrow> s)"

text \<open>\<^verbatim>\<open>a - b\<close> on looked-up values: \<open>None\<close> is \<^verbatim>\<open>NaN\<close>.\<close>

definition js_minus :: "js_lookup \<Rightarrow> js_lookup \<Rightarrow> int option" where
  "js_minus a b =
     (case (a, b) of (Index i, Index j) \<Rightarrow> Some (int i - int j) | _ \<Rightarrow> None)"

text \<open>
  \<^verbatim>\<open>xs.sort(comparefn)\<close>. An array of at most one element is returned as it is. When
  \<^verbatim>\<open>comparefn\<close> is a consistent comparison function for the elements (ECMAScript: every
  call yields a number that is not \<^verbatim>\<open>NaN\<close>, each element equals itself, equality is
  symmetric, and equality, less and greater are transitive), the result is the stable
  sort, computed here by insertion. Otherwise the order is left to the engine: it is
  whatever the parameter \<open>engine_order\<close> returns.
\<close>

primrec insert_sorted :: "('a \<Rightarrow> 'a \<Rightarrow> int option) \<Rightarrow> 'a \<Rightarrow> 'a list \<Rightarrow> 'a list" where
  "insert_sorted comparefn x [] = [x]"
| "insert_sorted comparefn x (y # ys) =
     (if (case comparefn x y of None \<Rightarrow> 0 | Some v \<Rightarrow> v) \<le> 0
      then x # y # ys
      else y # insert_sorted comparefn x ys)"

definition consistent_comparator :: "('a \<Rightarrow> 'a \<Rightarrow> int option) \<Rightarrow> 'a list \<Rightarrow> bool" where
  "consistent_comparator comparefn xs =
     (let v = (\<lambda>a b. case comparefn a b of None \<Rightarrow> 0 | Some n \<Rightarrow> n) in
      list_all (\<lambda>a. list_all (\<lambda>b. comparefn a b \<noteq> None) xs) xs
      \<and> list_all (\<lambda>a. v a a = 0) xs
      \<and> list_all (\<lambda>a. list_all (\<lambda>b. if v a b = 0 then v b a = 0 else True) xs) xs
      \<and> list_all (\<lambda>a. list_all (\<lambda>b. list_all (\<lambda>c.
              (if v a b = 0 \<and> v b c = 0 then v a c = 0 else True)
              \<and> (if v a b < 0 \<and> v b c < 0 then v a c < 0 else True)
              \<and> (if 0 < v a b \<and> 0 < v b c then 0 < v a c else True)) xs) xs) xs)"

definition js_sort ::
    "(('a \<Rightarrow> 'a \<Rightarrow> int option) \<Rightarrow> 'a list \<Rightarrow> 'a list)
       \<Rightarrow> ('a \<Rightarrow> 'a \<Rightarrow> int option) \<Rightarrow> 'a list \<Rightarrow> 'a list" where
  "js_sort engine_order comparefn xs =
     (if length xs \<le> 1 then xs
      else if consistent_comparator comparefn xs then foldr (insert_sorted comparefn) xs []
      else engine_order comparefn xs)"

subsection \<open>Sequencing calls that may throw\<close>

primrec map_result :: "('a \<Rightarrow> js_error + 'b) \<Rightarrow> 'a list \<Rightarrow> js_error + 'b list" where
  "map_result f [] = Inr []"
| "map_result f (x # xs) =
     (case f x of
        Inl e \<Rightarrow> Inl e
      | Inr y \<Rightarrow> (case map_result f xs of Inl e \<Rightarrow> Inl e | Inr ys \<Rightarrow> Inr (y # ys)))"

primrec fold_result :: "('a \<Rightarrow> 'b \<Rightarrow> js_error + 'a) \<Rightarrow> 'a \<Rightarrow> 'b list \<Rightarrow> js_error + 'a" where
  "fold_result f a [] = Inr a"
| "fold_result f a (x # xs) =
     (case f a x of Inl e \<Rightarrow> Inl e | Inr a' \<Rightarrow> fold_result f a' xs)"

section \<open>run.js\<close>

subsection \<open>getPortableSourcePath\<close>

definition getPortableSourcePath :: "string \<Rightarrow> string" where
  "getPortableSourcePath sourcePath =
     (let replacement = replace_every backslash ''/'' sourcePath in
      if 2 \<le> length replacement \<and> replacement ! 1 = CHR '':''
      then replace_first (CHR '':'') [] (''/'' @ replacement)
      else replacement)"

subsection \<open>prepareOutputSelection\<close>

type_synonym selectors = "(string \<times> string list) list"

definition defaultSelectors :: selectors where
  "defaultSelectors =
     [('''', [''legacyAST'', ''ast'']),
      (''*'', [''abi'', ''metadata'', ''evm.bytecode.object'', ''evm.bytecode.sourceMap'',
               ''evm.deployedBytecode.object'', ''evm.deployedBytecode.sourceMap'',
               ''userdoc'', ''devdoc''])]"

text \<open>The argument is \<open>None\<close> when \<^verbatim>\<open>targets\<close> is not given (the default \<^verbatim>\<open>[]\<close>).\<close>

definition prepareOutputSelection :: "string list option \<Rightarrow> selectors js_object" where
  "prepareOutputSelection targets_arg =
     (let targets = (case targets_arg of None \<Rightarrow> [] | Some ts \<Rightarrow> ts) in
      if length targets = 0
      then Map.empty(''*'' \<mapsto> defaultSelectors)
      else foldl object_assign Map.empty
             (map (\<lambda>target. (target, defaultSelectors)) targets))"

text \<open>
  How the compiler reads the request: the outputs selected for a file are those under the
  file's own key and those under the key \<^verbatim>\<open>*\<close>; within an entry the key \<^verbatim>\<open>""\<close>
  lists the file-level outputs (the ASTs) and the key \<^verbatim>\<open>*\<close> the outputs of every
  contract of the file.
\<close>

definition entry_selects :: "selectors option \<Rightarrow> string \<Rightarrow> string \<Rightarrow> bool" where
  "entry_selects entry level output =
     (case entry of
        None \<Rightarrow> False
      | Some sel \<Rightarrow> (case map_of sel level of None \<Rightarrow> False | Some outs \<Rightarrow> output \<in> set outs))"

definition requests :: "selectors js_object \<Rightarrow> string \<Rightarrow> string \<Rightarrow> string \<Rightarrow> bool" where
  "requests outputSelection file level output =
     (entry_selects (outputSelection file) level output
      \<or> entry_selects (outputSelection ''*'') level output)"

subsection \<open>detectErrors and the diagnostics gate of run\<close>

record diagnostic =
  severity :: string
  formattedMessage :: string

text \<open>
  The options the code reads: \<^verbatim>\<open>options.strict\<close>, \<^verbatim>\<open>options.quiet\<close> and
  \<^verbatim>\<open>options.compilers.solc.version\<close> (\<open>None\<close> when it is not set).
\<close>

record options =
  strict :: bool
  quiet :: bool
  solc_version :: "string option"

text \<open>The note appended on a version mismatch; \<open>eol\<close> is \<^verbatim>\<open>OS.EOL\<close>.\<close>

definition version_hint :: "string \<Rightarrow> string \<Rightarrow> string \<Rightarrow> string" where
  "version_hint eol configSolcVer contractSolcVer =
     eol
     @ ''Error: Truffle is currently using solc '' @ configSolcVer @ '', ''
     @ ''but one or more of your contracts specify '' @ [dquote] @ contractSolcVer
       @ [dquote] @ ''.''
     @ eol
     @ ''Please update your truffle config or pragma statement(s).''
     @ eol
     @ ''(See https://truffleframework.com/docs/truffle/reference/configuration#compiler-configuration ''
     @ ''for information on''
     @ eol
     @ ''configuring Truffle to use a specific solc compiler version.)''"

text \<open>
  The result is the pair \<open>(warnings, errors)\<close>. The argument \<open>outputErrors\<close> is \<open>None\<close>
  when the compiler output has no \<^verbatim>\<open>errors\<close> field. The identifier \<^verbatim>\<open>solc\<close> is bound
  nowhere in the scope of \<^verbatim>\<open>detectErrors\<close>, so evaluating the right operand of
  \<^verbatim>\<open>options.compilers.solc.version || semver.valid(solc.version())\<close> throws; it is
  evaluated when the version is falsy (not set, or the empty string).
\<close>

definition detectErrors ::
    "string \<Rightarrow> diagnostic list option \<Rightarrow> options \<Rightarrow> js_error + (string \<times> string)" where
  "detectErrors eol outputErrors_arg opts =
     (let outputErrors = (case outputErrors_arg of None \<Rightarrow> [] | Some ds \<Rightarrow> ds);
          rawErrors = (if strict opts then outputErrors
                       else filter (\<lambda>d. severity d \<noteq> ''warning'') outputErrors);
          rawWarnings = (if strict opts then []
                         else filter (\<lambda>d. severity d = ''warning'') outputErrors);
          errors = join (map formattedMessage rawErrors);
          warnings = join (map formattedMessage rawWarnings)
      in if js_includes errors ''requires different compiler version''
         then (case match_pragma errors of
                 None \<Rightarrow> Inl TypeError
               | Some contractSolcVer \<Rightarrow>
                   (case solc_version opts of
                      None \<Rightarrow> Inl ReferenceError
                    | Some configSolcVer \<Rightarrow>
                        if configSolcVer = [] then Inl ReferenceError
                        else Inr (warnings,
                                  errors @ version_hint eol configSolcVer contractSolcVer)))
         else Inr (warnings, errors))"

text \<open>
  The part of \<^verbatim>\<open>run\<close> between the compiler's answer and the success case: the lines
  written to \<^verbatim>\<open>options.logger\<close>, and either the error thrown or \<open>Inr ()\<close> when the
  function goes on to assemble its result.
\<close>

definition run_diagnostics ::
    "string \<Rightarrow> diagnostic list option \<Rightarrow> options \<Rightarrow> string list \<times> (js_error + unit)" where
  "run_diagnostics eol outputErrors_arg opts =
     (case detectErrors eol outputErrors_arg opts of
        Inl e \<Rightarrow> ([], Inl e)
      | Inr (warnings, errors) \<Rightarrow>
          (let logged = (if 0 < length warnings \<and> \<not> quiet opts
                         then [eol @ ''    > compilation warnings encountered:'' @ eol, warnings]
                         else [])
           in if 0 < length errors
              then (logged @ (if \<not> quiet opts then [[]] else []), Inl (CompileError errors))
              else (logged, Inr ())))"

text \<open>
  The text that \<^verbatim>\<open>detectErrors\<close> holds in \<^verbatim>\<open>errors\<close> before the version check: the
  joined formatted messages of the diagnostics that count as errors.
\<close>

definition joined_errors :: "diagnostic list option \<Rightarrow> options \<Rightarrow> string" where
  "joined_errors outputErrors_arg opts =
     (let outputErrors = (case outputErrors_arg of None \<Rightarrow> [] | Some ds \<Rightarrow> ds)
      in join (map formattedMessage
                 (if strict opts then outputErrors
                  else filter (\<lambda>d. severity d \<noteq> ''warning'') outputErrors)))"

subsection \<open>orderABI\<close>

text \<open>
  An AST node as far as the code reads it: \<^verbatim>\<open>nodeType\<close>, \<^verbatim>\<open>name\<close> (absent on
  some nodes) and the child list \<^verbatim>\<open>nodes\<close> (absent on leaves). An ABI entry is read
  through its \<^verbatim>\<open>name\<close> only; constructor and fallback entries have none.
\<close>

datatype ast_node =
  AstNode (nodeType: string) (node_name: "string option") (nodes: "ast_node list option")

record abi_entry =
  entry_type :: string
  entry_name :: "string option"

text \<open>
  The first argument is the order the engine gives an array under a comparator that is
  not consistent (see \<open>js_sort\<close>); the others are those of the source.
\<close>

definition orderABI ::
    "(('a abi_entry_scheme \<Rightarrow> 'a abi_entry_scheme \<Rightarrow> int option)
        \<Rightarrow> 'a abi_entry_scheme list \<Rightarrow> 'a abi_entry_scheme list)
       \<Rightarrow> 'a abi_entry_scheme list \<Rightarrow> string \<Rightarrow> ast_node
       \<Rightarrow> js_error + 'a abi_entry_scheme list" where
  "orderABI engine_order abi contractName ast =
     (case nodes ast of
        None \<Rightarrow> Inl TypeError
      | Some ast_nodes \<Rightarrow>
          (case filter (\<lambda>n. nodeType n = ''ContractDefinition'' \<and> node_name n = Some contractName)
                  ast_nodes of
             [] \<Rightarrow> Inr abi
           | contractDefinition # _ \<Rightarrow>
               (case nodes contractDefinition of
                  None \<Rightarrow> Inr abi
                | Some contract_nodes \<Rightarrow>
                    (let orderedFunctionNames =
                           map node_name
                             (filter (\<lambda>n. nodeType n = ''FunctionDefinition'') contract_nodes);
                         functionIndexes =
                           foldl object_assign Map.empty
                             (map (\<lambda>(index, functionName). (property_key functionName, index))
                                (enumerate 0 orderedFunctionNames));
                         idx = (\<lambda>e. get_property functionIndexes (property_key (entry_name e)))
                     in Inr (filter (\<lambda>e. idx e = Undefined) abi
                             @ js_sort engine_order (\<lambda>a b. js_minus (idx a) (idx b))
                                 (filter (\<lambda>e. idx e \<noteq> Undefined) abi))))))"

text \<open>
  The keys under which the function definitions of a contract are entered into
  \<^verbatim>\<open>functionIndexes\<close>, in source order, and the index the hash ends up holding for a
  name: that of the last function definition of that name.
\<close>

definition function_keys :: "ast_node list \<Rightarrow> string list" where
  "function_keys contract_nodes =
     map (\<lambda>n. property_key (node_name n))
       (filter (\<lambda>n. nodeType n = ''FunctionDefinition'') contract_nodes)"

definition declaration_index :: "string list \<Rightarrow> string \<Rightarrow> nat option" where
  "declaration_index keys k = map_of (rev (zip keys [0..<length keys])) k"

subsection \<open>replaceLinkReferences and replaceAllLinkReferences\<close>

record link_reference =
  ref_start :: int
  ref_length :: int

text \<open>The loop \<^verbatim>\<open>while (linkId.length < width) linkId += "_"\<close>.\<close>

function pad_linkId :: "int \<Rightarrow> string \<Rightarrow> string" where
  "pad_linkId width linkId =
     (if int (length linkId) < width then pad_linkId width (linkId @ ''_'') else linkId)"
  by pat_completeness auto
termination
  by (relation "measure (\<lambda>(width, linkId). nat (width - int (length linkId)))") auto

declare pad_linkId.simps [simp del]

definition replaceLinkReferences :: "string \<Rightarrow> link_reference list \<Rightarrow> string \<Rightarrow> string" where
  "replaceLinkReferences bytecode linkReferences libraryName =
     (let linkId = pad_linkId 40 (''__'' @ libraryName) in
      foldl (\<lambda>bytecode ref.
               (let start = ref_start ref * 2 in
                js_substring bytecode 0 start @ linkId @ js_substring_from bytecode (start + 40)))
        bytecode linkReferences)"

text \<open>
  The compiler's \<^verbatim>\<open>linkReferences\<close>: per file, per library name, the list of
  references, each level in the order in which the object's properties are enumerated.
  \<open>None\<close> stands for an absent (\<^verbatim>\<open>undefined\<close>) field, on which
  \<^verbatim>\<open>Object.values\<close> throws.
\<close>

type_synonym link_references = "(string \<times> (string \<times> link_reference list) list) list"

definition replaceAllLinkReferences :: "string \<Rightarrow> link_references option \<Rightarrow> js_error + string" where
  "replaceAllLinkReferences bytecode linkReferences_arg =
     (case linkReferences_arg of
        None \<Rightarrow> Inl TypeError
      | Some linkReferences \<Rightarrow>
          (let libraryLinkReferences =
                 foldl (@) []
                   (map (\<lambda>fileLinks. map (\<lambda>(libraryName, links). (libraryName, links)) fileLinks)
                      (map snd linkReferences));
               unprefixed =
                 foldl (\<lambda>bytecode (libraryName, links).
                          replaceLinkReferences bytecode links libraryName)
                   bytecode libraryLinkReferences
           in Inr (''0x'' @ unprefixed)))"

text \<open>
  What the compiler promises of its references: a reference addresses 20 bytes that lie
  inside the bytecode. The second predicate asks this of every reference of a structure,
  and of every library name that \<^verbatim>\<open>__\<close> and the name fit into the 40 characters.
\<close>

definition reference_in_range :: "string \<Rightarrow> link_reference \<Rightarrow> bool" where
  "reference_in_range bytecode r =
     (0 \<le> ref_start r \<and> ref_start r * 2 + 40 \<le> int (length bytecode))"

definition references_fit :: "string \<Rightarrow> link_references \<Rightarrow> bool" where
  "references_fit bytecode linkReferences =
     list_all (\<lambda>(file, libraries).
        list_all (\<lambda>(libraryName, links).
           length libraryName \<le> 38 \<and> list_all (reference_in_range bytecode) links)
          libraries)
       linkReferences"

section \<open>The legacy shims\<close>

text \<open>
  Two modules of the repository export \<^verbatim>\<open>shimOutput\<close>, \<^verbatim>\<open>shimContract\<close> and
  \<^verbatim>\<open>shimBytecode\<close>: \<^verbatim>\<open>packages/truffle-compile/legacy/shims.js\<close> and the file kept as
  \<^verbatim>\<open>unnamed/part_000\<close>. The first two functions read the same in both; the modules
  differ in \<^verbatim>\<open>shimBytecode\<close>.
\<close>

record shim_link_reference =
  lr_offsets :: "int list"
  lr_length :: int
  lr_name :: string

text \<open>
  A bytecode value of an artifact: a hex string, or an object with the fields
  \<^verbatim>\<open>bytes\<close> and \<^verbatim>\<open>linkReferences\<close> (each possibly absent).
\<close>

datatype bytecode_value =
  Bytecode_string string
| Bytecode_object "string option" "shim_link_reference list option"

text \<open>
  \<^verbatim>\<open>shimBytecode({ bytes, linkReferences })\<close> of \<^verbatim>\<open>legacy/shims.js\<close>. Destructuring a
  string finds neither property; \<^verbatim>\<open>bytes.substring\<close> throws on an absent \<^verbatim>\<open>bytes\<close>, and
  the template \<^verbatim>\<open>`0x${bytes}`\<close> prints it as \<^verbatim>\<open>undefined\<close>.
\<close>

definition shimBytecode :: "bytecode_value \<Rightarrow> js_error + bytecode_value" where
  "shimBytecode arg =
     (let bytes = (case arg of Bytecode_string _ \<Rightarrow> None | Bytecode_object b _ \<Rightarrow> b);
          linkReferences =
            (case arg of
               Bytecode_string _ \<Rightarrow> []
             | Bytecode_object _ refs \<Rightarrow> (case refs of None \<Rightarrow> [] | Some rs \<Rightarrow> rs));
          flattenedLinkReferences =
            foldl (@) []
              (map (\<lambda>r. map (\<lambda>offset. (offset, lr_length r, lr_name r)) (lr_offsets r))
                 linkReferences)
      in case fold_result
                (\<lambda>bytes (offset, len, name).
                   (case bytes of
                      None \<Rightarrow> Inl TypeError
                    | Some b \<Rightarrow>
                        (let characterLength = len * 2;
                             linkId = pad_linkId characterLength
                                        (''__'' @ js_slice0 name (characterLength - 2));
                             start = offset * 2
                         in Inr (Some (js_substring b 0 start @ linkId
                                       @ js_substring_from b (start + characterLength))))))
                bytes flattenedLinkReferences of
           Inl e \<Rightarrow> Inl e
         | Inr bytes' \<Rightarrow>
             Inr (Bytecode_string
                    (''0x'' @ (case bytes' of None \<Rightarrow> ''undefined'' | Some b \<Rightarrow> b))))"

text \<open>\<^verbatim>\<open>shimBytecode(bytecode)\<close> of \<^verbatim>\<open>unnamed/part_000\<close>: the argument, as it is.\<close>

definition shimBytecode_unnamed :: "bytecode_value \<Rightarrow> js_error + bytecode_value" where
  "shimBytecode_unnamed bytecode = Inr bytecode"

datatype shims_module = Legacy_shims | Unnamed_shims

definition module_shimBytecode :: "shims_module \<Rightarrow> bytecode_value \<Rightarrow> js_error + bytecode_value" where
  "module_shimBytecode m =
     (case m of Legacy_shims \<Rightarrow> shimBytecode | Unnamed_shims \<Rightarrow> shimBytecode_unnamed)"

text \<open>
  The receiver \<^verbatim>\<open>this\<close> of a call: the module object when the function is called as
  its method, and otherwise (a plain call, as \<^verbatim>\<open>Array.prototype.map\<close> makes of its
  callback) \<^verbatim>\<open>undefined\<close> or the global object, neither of which has a
  \<^verbatim>\<open>shimContract\<close> or \<^verbatim>\<open>shimBytecode\<close> property.
\<close>

datatype this_value = This_module shims_module | This_unbound

text \<open>
  The artifact that \<^verbatim>\<open>run\<close> assembles and its legacy form. The fields that the shim
  copies without reading them hold values of an arbitrary type \<open>'j\<close>; the fields of the
  legacy form that keep their names carry a prime here.
\<close>

record 'j contract_artifact =
  contractName :: string
  sourcePath :: 'j
  source :: 'j
  sourceMap :: 'j
  deployedSourceMap :: 'j
  legacyAST :: 'j
  ast :: 'j
  abi :: 'j
  metadata :: 'j
  bytecode :: bytecode_value
  deployedBytecode :: bytecode_value
  compiler :: 'j
  devdoc :: 'j
  userdoc :: 'j

record 'j legacy_artifact =
  contract_name :: string
  sourcePath' :: 'j
  source' :: 'j
  sourceMap' :: 'j
  deployedSourceMap' :: 'j
  legacyAST' :: 'j
  ast' :: 'j
  abi' :: 'j
  metadata' :: 'j
  bytecode' :: bytecode_value
  deployedBytecode' :: bytecode_value
  unlinked_binary :: bytecode_value
  compiler' :: 'j
  devdoc' :: 'j
  userdoc' :: 'j

definition shimContract :: "this_value \<Rightarrow> 'j contract_artifact \<Rightarrow> js_error + 'j legacy_artifact" where
  "shimContract this contract =
     (case this of
        This_unbound \<Rightarrow> Inl TypeError
      | This_module m \<Rightarrow>
          (case module_shimBytecode m (bytecode contract) of
             Inl e \<Rightarrow> Inl e
           | Inr shimmed_bytecode \<Rightarrow>
               (case module_shimBytecode m (deployedBytecode contract) of
                  Inl e \<Rightarrow> Inl e
                | Inr shimmed_deployedBytecode \<Rightarrow>
                    (case module_shimBytecode m (bytecode contract) of
                       Inl e \<Rightarrow> Inl e
                     | Inr shimmed_unlinked \<Rightarrow>
                         Inr \<lparr> contract_name = contractName contract,
                               sourcePath' = sourcePath contract,
                               source' = source contract,
                               sourceMap' = sourceMap contract,
                               deployedSourceMap' = deployedSourceMap contract,
                               legacyAST' = legacyAST contract,
                               ast' = ast contract,
                               abi' = abi contract,
                               metadata' = metadata contract,
                               bytecode' = shimmed_bytecode,
                               deployedBytecode' = shimmed_deployedBytecode,
                               unlinked_binary = shimmed_unlinked,
                               compiler' = compiler contract,
                               devdoc' = devdoc contract,
                               userdoc' = userdoc contract \<rparr>))))"

record ('j, 's, 'c) run_output =
  contracts :: "'j contract_artifact list"
  sourceIndexes :: 's
  compilerInfo :: 'c

text \<open>
  \<^verbatim>\<open>shimOutput\<close>, called with receiver \<open>this\<close>. The callback handed to
  \<^verbatim>\<open>list.map\<close> is the function \<^verbatim>\<open>this.shimContract\<close> without a receiver, so each
  call of it runs with an unbound \<^verbatim>\<open>this\<close>; when \<^verbatim>\<open>this.shimContract\<close> is itself
  \<^verbatim>\<open>undefined\<close>, \<^verbatim>\<open>map\<close> throws before any call.
\<close>

definition shimOutput ::
    "this_value \<Rightarrow> ('j, 's, 'c) run_output
       \<Rightarrow> js_error + ('j legacy_artifact js_object \<times> 's \<times> 'c)" where
  "shimOutput this output =
     (case this of
        This_unbound \<Rightarrow> Inl TypeError
      | This_module m \<Rightarrow>
          (case map_result (shimContract This_unbound) (contracts output) of
             Inl e \<Rightarrow> Inl e
           | Inr shimmed \<Rightarrow>
               Inr (foldl object_assign Map.empty
                      (map (\<lambda>contract. (contract_name contract, contract)) shimmed),
                    sourceIndexes output, compilerInfo output)))"

section \<open>Path normalization\<close>

lemma replace_every_map:
  "replace_every c [d] xs = map (\<lambda>x. if x = c then d else x) xs"
  by (induction xs) simp_all

lemma replace_first_remove1: "replace_first c [] xs = remove1 c xs"
  by (induction xs) auto

lemma getPortableSourcePath_eq:
  "getPortableSourcePath p =
     (let r = map (\<lambda>c. if c = backslash then CHR ''/'' else c) p in
      if 2 \<le> length r \<and> r ! 1 = CHR '':'' then CHR ''/'' # remove1 (CHR '':'') r else r)"
proof -
  have "\<And>r. remove1 (CHR '':'') (''/'' @ r) = CHR ''/'' # remove1 (CHR '':'') r"
    by simp
  then show ?thesis
    unfolding getPortableSourcePath_def replace_every_map replace_first_remove1 Let_def
    by (simp only:)
qed

lemma slash_map_idem:
  "map (\<lambda>c. if c = backslash then CHR ''/'' else c)
     (map (\<lambda>c. if c = backslash then CHR ''/'' else c) xs)
   = map (\<lambda>c. if c = backslash then CHR ''/'' else c) xs"
  by (induction xs) auto

lemma slash_map_id:
  "backslash \<notin> set xs \<Longrightarrow> map (\<lambda>c. if c = backslash then CHR ''/'' else c) xs = xs"
  by (induction xs) auto

lemma getPortableSourcePath_idem_iff:
  "(getPortableSourcePath (getPortableSourcePath p) = getPortableSourcePath p)
     = (take 2 p \<noteq> ''::'')"
proof (cases p)
  case Nil
  then show ?thesis by (simp add: getPortableSourcePath_eq)
next
  case (Cons a q)
  show ?thesis
  proof (cases q)
    case Nil
    with \<open>p = a # q\<close> show ?thesis by (simp add: getPortableSourcePath_eq)
  next
    case (Cons b rest)
    with \<open>p = a # q\<close> show ?thesis
      by (auto simp add: getPortableSourcePath_eq Let_def backslash_def slash_map_idem)
  qed
qed

text \<open>
  C6. \<^verbatim>\<open>getPortableSourcePath\<close> turns every backslash into a forward slash and, when
  the result has a colon at index 1, puts a slash in front and removes the first colon.
  So \<^verbatim>\<open>C:\a\b.sol\<close> becomes \<^verbatim>\<open>/C/a/b.sol\<close>, \<^verbatim>\<open>/already/posix.sol\<close> stays as it is,
  and a path with no backslash and no colon at index 1 is returned unchanged. The function
  is total on strings: the embedding has no error result, as the source has no operation
  that throws on a string.
\<close>

theorem getPortableSourcePath_spec:
  "getPortableSourcePath p =
     (let r = map (\<lambda>c. if c = backslash then CHR ''/'' else c) p in
      if 2 \<le> length r \<and> r ! 1 = CHR '':'' then CHR ''/'' # remove1 (CHR '':'') r else r)
   \<and> getPortableSourcePath (''C:'' @ [backslash] @ ''a'' @ [backslash] @ ''b.sol'') = ''/C/a/b.sol''
   \<and> getPortableSourcePath ''/already/posix.sol'' = ''/already/posix.sol''
   \<and> (backslash \<notin> set p \<and> \<not> (2 \<le> length p \<and> p ! 1 = CHR '':'')
        \<longrightarrow> getPortableSourcePath p = p)"
proof -
  have windows:
    "getPortableSourcePath (''C:'' @ [backslash] @ ''a'' @ [backslash] @ ''b.sol'') = ''/C/a/b.sol''"
    by (simp add: getPortableSourcePath_def backslash_def)
  have posix: "getPortableSourcePath ''/already/posix.sol'' = ''/already/posix.sol''"
    by (simp add: getPortableSourcePath_def backslash_def)
  have unchanged: "getPortableSourcePath p = p"
    if "backslash \<notin> set p" "\<not> (2 \<le> length p \<and> p ! 1 = CHR '':'')"
    using that by (auto simp add: getPortableSourcePath_eq slash_map_id)
  from getPortableSourcePath_eq windows posix unchanged show ?thesis
    by blast
qed

theorem getPortableSourcePath_spec_witness:
  "backslash \<notin> set ''contracts/A.sol''
   \<and> \<not> (2 \<le> length ''contracts/A.sol'' \<and> ''contracts/A.sol'' ! 1 = CHR '':'')
   \<and> getPortableSourcePath ''contracts/A.sol'' = ''contracts/A.sol''"
  using getPortableSourcePath_spec [of "''contracts/A.sol''"]
  by (simp add: backslash_def)

text \<open>
  C7, as amended. For a path that contains a backslash, normalizing twice equals
  normalizing once exactly when the path does not begin with two colons. (For a path
  \<^verbatim>\<open>::...\<close> the first pass removes the colon at index 0 and leaves a colon at index 1,
  which the second pass removes.)
\<close>

theorem getPortableSourcePath_idempotent:
  "backslash \<in> set p \<Longrightarrow>
     (getPortableSourcePath (getPortableSourcePath p) = getPortableSourcePath p)
       = (take 2 p \<noteq> ''::'')"
  by (rule getPortableSourcePath_idem_iff)

theorem getPortableSourcePath_idempotent_witness:
  "backslash \<in> set (''C:'' @ [backslash] @ ''a'')
   \<and> take 2 (''C:'' @ [backslash] @ ''a'') \<noteq> ''::''
   \<and> getPortableSourcePath (getPortableSourcePath (''C:'' @ [backslash] @ ''a''))
       = getPortableSourcePath (''C:'' @ [backslash] @ ''a'')"
  using getPortableSourcePath_idempotent [of "''C:'' @ [backslash] @ ''a''"]
  by simp

text \<open>C7 as stated fails on a path that begins with two colons.\<close>

theorem getPortableSourcePath_not_idempotent:
  "backslash \<in> set (''::'' @ [backslash] @ ''a'')
   \<and> getPortableSourcePath (''::'' @ [backslash] @ ''a'') = ''/:/a''
   \<and> getPortableSourcePath (getPortableSourcePath (''::'' @ [backslash] @ ''a'')) = ''///a''"
  by (simp add: getPortableSourcePath_def backslash_def)

section \<open>Link references\<close>

lemma js_substring_0: "js_substring s 0 a = take (nat a) s"
  by (simp add: js_substring_def clamp_index_def Let_def min_def)

lemma js_substring_from_drop: "js_substring_from s a = drop (nat a) s"
  by (simp add: js_substring_from_def clamp_index_def min_def)

lemma pad_linkId_eq:
  "pad_linkId width linkId = linkId @ replicate (nat (width - int (length linkId))) (CHR ''_'')"
proof (induction width linkId rule: pad_linkId.induct)
  case (1 width linkId)
  show ?case
  proof (cases "int (length linkId) < width")
    case True
    have step: "pad_linkId width linkId = pad_linkId width (linkId @ ''_'')"
      using True by (subst pad_linkId.simps) simp
    have n: "nat (width - int (length linkId)) = Suc (nat (width - int (length (linkId @ ''_''))))"
      using True by simp
    have "pad_linkId width (linkId @ ''_'')
            = (linkId @ ''_'') @ replicate (nat (width - int (length (linkId @ ''_'')))) (CHR ''_'')"
      using 1 True by blast
    also have "\<dots> = linkId @ replicate (nat (width - int (length linkId))) (CHR ''_'')"
      unfolding n by simp
    finally show ?thesis using step by simp
  next
    case False
    then show ?thesis by (subst pad_linkId.simps) simp
  qed
qed

lemma length_pad_linkId: "length (pad_linkId width linkId) = max (length linkId) (nat width)"
  by (simp add: pad_linkId_eq)

lemma replaceLinkReferences_eq:
  "replaceLinkReferences code links libraryName =
     foldl (\<lambda>acc r. take (nat (ref_start r * 2)) acc
                      @ (''__'' @ libraryName @ replicate (38 - length libraryName) (CHR ''_''))
                      @ drop (nat (ref_start r * 2 + 40)) acc)
       code links"
proof -
  have "nat (40 - int (length (''__'' @ libraryName))) = 38 - length libraryName"
    by simp
  then show ?thesis
    by (simp add: replaceLinkReferences_def pad_linkId_eq js_substring_0 js_substring_from_drop
        Let_def del: replicate_eq_replicate)
qed

lemma reference_in_range_length:
  "length b' = length b \<Longrightarrow> reference_in_range b' = reference_in_range b"
  by (simp add: fun_eq_iff reference_in_range_def)

lemma replaceLinkReferences_length:
  assumes "length libraryName \<le> 38" "list_all (reference_in_range code) links"
  shows "length (replaceLinkReferences code links libraryName) = length code"
  using assms(2)
proof (induction links arbitrary: code)
  case Nil
  then show ?case by (simp add: replaceLinkReferences_eq)
next
  case (Cons r rs)
  let ?b = "take (nat (ref_start r * 2)) code
              @ (''__'' @ libraryName @ replicate (38 - length libraryName) (CHR ''_''))
              @ drop (nat (ref_start r * 2 + 40)) code"
  have l: "length ?b = length code"
    using Cons.prems assms(1) by (simp add: reference_in_range_def) linarith
  have step: "replaceLinkReferences code (r # rs) libraryName
                = replaceLinkReferences ?b rs libraryName"
    by (simp add: replaceLinkReferences_eq)
  have "list_all (reference_in_range ?b) rs"
    using Cons.prems reference_in_range_length[OF l] by simp
  then have "length (replaceLinkReferences ?b rs libraryName) = length ?b"
    by (rule Cons.IH)
  then show ?case
    unfolding step l .
qed

lemma foldl_append_concat: "foldl (@) ys xss = ys @ concat xss"
  by (induction xss arbitrary: ys) simp_all

lemma replaceAllLinkReferences_eq:
  "replaceAllLinkReferences code (Some refs) =
     Inr (''0x'' @ foldl (\<lambda>acc (libraryName, links). replaceLinkReferences acc links libraryName)
                     code (concat (map snd refs)))"
proof -
  have "map (\<lambda>fileLinks. map (\<lambda>(libraryName, links). (libraryName, links)) fileLinks) (map snd refs)
          = map snd refs"
    by simp
  then show ?thesis
    by (simp add: replaceAllLinkReferences_def foldl_append_concat del: map_map)
qed

lemma fold_libraries_length:
  "list_all (\<lambda>(libraryName, links).
       length libraryName \<le> 38 \<and> list_all (reference_in_range code) links) libraries \<Longrightarrow>
   length (foldl (\<lambda>acc (libraryName, links). replaceLinkReferences acc links libraryName)
             code libraries) = length code"
proof (induction libraries arbitrary: code)
  case Nil
  then show ?case by simp
next
  case (Cons lib libraries)
  obtain libraryName links where lib: "lib = (libraryName, links)"
    by (cases lib)
  let ?b = "replaceLinkReferences code links libraryName"
  have l: "length ?b = length code"
    using Cons.prems lib by (simp add: replaceLinkReferences_length)
  have "list_all (\<lambda>(libraryName, links).
       length libraryName \<le> 38 \<and> list_all (reference_in_range ?b) links) libraries"
    using Cons.prems reference_in_range_length[OF l] by simp
  then have "length (foldl (\<lambda>acc (libraryName, links). replaceLinkReferences acc links libraryName)
             ?b libraries) = length ?b"
    by (rule Cons.IH)
  then show ?case
    unfolding l by (simp add: lib)
qed

lemma references_fit_concat:
  "references_fit code refs =
     list_all (\<lambda>(libraryName, links).
       length libraryName \<le> 38 \<and> list_all (reference_in_range code) links) (concat (map snd refs))"
  by (induction refs) (auto simp add: references_fit_def)

text \<open>
  When every reference of the structure lies inside the bytecode and every library name
  has at most 38 characters, \<^verbatim>\<open>replaceAllLinkReferences\<close> returns \<^verbatim>\<open>0x\<close> followed by
  a string as long as the bytecode it was given.
\<close>

lemma replaceAllLinkReferences_length:
  "references_fit code refs \<Longrightarrow>
     \<exists>resolved. replaceAllLinkReferences code (Some refs) = Inr (''0x'' @ resolved)
                \<and> length resolved = length code"
  by (simp add: replaceAllLinkReferences_eq references_fit_concat fold_libraries_length)

lemma replaceAllLinkReferences_length_example:
  "references_fit (replicate 100 (CHR ''0''))
     [(''C.sol'', [(''MathLib'', [\<lparr>ref_start = 10, ref_length = 20\<rparr>])])]
   \<and> (\<exists>resolved.
         replaceAllLinkReferences (replicate 100 (CHR ''0''))
           (Some [(''C.sol'', [(''MathLib'', [\<lparr>ref_start = 10, ref_length = 20\<rparr>])])])
           = Inr (''0x'' @ resolved)
         \<and> length resolved = length (replicate 100 (CHR ''0'')))"
  using replaceAllLinkReferences_length
    [of "replicate 100 (CHR ''0'')"
        "[(''C.sol'', [(''MathLib'', [\<lparr>ref_start = 10, ref_length = 20\<rparr>])])]"]
  by (simp add: references_fit_def reference_in_range_def)

text \<open>
  C1. The resolved bytecode starts with \<^verbatim>\<open>0x\<close>, but its length after the prefix is not
  always that of the input: for a library name of 39 letters and references that lie
  inside the bytecode, the creation bytecode of 120 characters resolves to 121 and the
  deployed bytecode of 80 characters to 81. The placeholder is not cut to 40 characters.
\<close>

theorem replaceAllLinkReferences_length_not_kept:
  "replaceAllLinkReferences (concat (replicate 60 ''00''))
     (Some [(''C.sol'', [(''FixedPointMathematicsAndRoundingLibrary'',
                          [\<lparr>ref_start = 30, ref_length = 20\<rparr>])])])
     = Inr (''0x'' @ replicate 60 (CHR ''0'') @ ''__FixedPointMathematicsAndRoundingLibrary''
            @ replicate 20 (CHR ''0''))
   \<and> length (replicate 60 (CHR ''0'') @ ''__FixedPointMathematicsAndRoundingLibrary''
            @ replicate 20 (CHR ''0'')) = 121
   \<and> length (concat (replicate 60 ''00'')) = 120
   \<and> replaceAllLinkReferences (concat (replicate 40 ''00''))
     (Some [(''C.sol'', [(''FixedPointMathematicsAndRoundingLibrary'',
                          [\<lparr>ref_start = 12, ref_length = 20\<rparr>])])])
     = Inr (''0x'' @ replicate 24 (CHR ''0'') @ ''__FixedPointMathematicsAndRoundingLibrary''
            @ replicate 16 (CHR ''0''))
   \<and> length (replicate 24 (CHR ''0'') @ ''__FixedPointMathematicsAndRoundingLibrary''
            @ replicate 16 (CHR ''0'')) = 81
   \<and> length (concat (replicate 40 ''00'')) = 80"
  by code_simp

text \<open>
  A single reference in range and a name that fits: exactly the 40 characters at the
  reference's position are replaced by the padded name, and the rest is unchanged.
\<close>

lemma replaceLinkReferences_single:
  assumes "length libraryName \<le> 38" "reference_in_range code r"
  shows "length (replaceLinkReferences code [r] libraryName) = length code"
    and "take (nat (ref_start r * 2)) (replaceLinkReferences code [r] libraryName)
           = take (nat (ref_start r * 2)) code"
    and "take 40 (drop (nat (ref_start r * 2)) (replaceLinkReferences code [r] libraryName))
           = ''__'' @ libraryName @ replicate (38 - length libraryName) (CHR ''_'')"
    and "drop (nat (ref_start r * 2) + 40) (replaceLinkReferences code [r] libraryName)
           = drop (nat (ref_start r * 2) + 40) code"
proof -
  have n: "nat (ref_start r * 2 + 40) = nat (ref_start r * 2) + 40"
    using assms(2) by (simp add: reference_in_range_def nat_add_distrib)
  have m: "min (length code) (nat (ref_start r * 2)) = nat (ref_start r * 2)"
    using assms(2) by (simp add: reference_in_range_def) linarith
  show "length (replaceLinkReferences code [r] libraryName) = length code"
    using assms by (simp add: replaceLinkReferences_length)
  show "take (nat (ref_start r * 2)) (replaceLinkReferences code [r] libraryName)
          = take (nat (ref_start r * 2)) code"
    by (simp add: replaceLinkReferences_eq m)
  show "take 40 (drop (nat (ref_start r * 2)) (replaceLinkReferences code [r] libraryName))
          = ''__'' @ libraryName @ replicate (38 - length libraryName) (CHR ''_'')"
    using assms(1) by (simp add: replaceLinkReferences_eq m)
  show "drop (nat (ref_start r * 2) + 40) (replaceLinkReferences code [r] libraryName)
          = drop (nat (ref_start r * 2) + 40) code"
    using assms(1) by (simp add: replaceLinkReferences_eq m n)
qed

lemma replaceAllLinkReferences_MathLib:
  "replaceAllLinkReferences (concat (replicate 50 ''00''))
     (Some [(''C.sol'', [(''MathLib'', [\<lparr>ref_start = 10, ref_length = 20\<rparr>])])])
     = Inr (''0x'' @ replicate 20 (CHR ''0'') @ ''__MathLib'' @ replicate 31 (CHR ''_'')
            @ replicate 40 (CHR ''0''))"
  by code_simp

text \<open>
  C2. The placeholder is meant to be 40 characters wide: the name is padded to 40 and 40
  characters of the bytecode are replaced. \<^verbatim>\<open>replaceLinkReferences\<close> never truncates
  the name, so for the 39-letter library name below the token has 41 characters and the
  resolved bytecode has 101 characters instead of 100.
\<close>

theorem replaceLinkReferences_long_name:
  "replaceAllLinkReferences (concat (replicate 50 ''00''))
     (Some [(''C.sol'', [(''TokenVestingScheduleCalculationsLibrary'',
                          [\<lparr>ref_start = 10, ref_length = 20\<rparr>])])])
     = Inr (''0x'' @ replicate 20 (CHR ''0'') @ ''__TokenVestingScheduleCalculationsLibrary''
            @ replicate 40 (CHR ''0''))
   \<and> length ''__TokenVestingScheduleCalculationsLibrary'' = 41
   \<and> length (replicate 20 (CHR ''0'') @ ''__TokenVestingScheduleCalculationsLibrary''
            @ replicate 40 (CHR ''0'')) = 101"
  by code_simp

text \<open>
  \<^verbatim>\<open>shimBytecode\<close> of \<^verbatim>\<open>legacy/shims.js\<close> cuts the same name to 38 characters.
\<close>

lemma shimBytecode_truncates:
  "shimBytecode (Bytecode_object (Some (concat (replicate 50 ''00'')))
      (Some [\<lparr>lr_offsets = [10], lr_length = 20,
               lr_name = ''TokenVestingScheduleCalculationsLibrary''\<rparr>]))
     = Inr (Bytecode_string
         (''0x'' @ replicate 20 (CHR ''0'') @ ''__TokenVestingScheduleCalculationsLibrar''
            @ replicate 40 (CHR ''0'')))"
  by code_simp

text \<open>
  C8. An absent reference set makes \<^verbatim>\<open>replaceAllLinkReferences\<close> throw a
  \<^verbatim>\<open>TypeError\<close> (from \<^verbatim>\<open>Object.values(undefined)\<close>), whatever the bytecode.
\<close>

theorem replaceAllLinkReferences_absent:
  "replaceAllLinkReferences code None = Inl TypeError"
  by (simp add: replaceAllLinkReferences_def)

text \<open>An empty set, or one that lists no reference, only adds the prefix.\<close>

lemma replaceAllLinkReferences_empty:
  "replaceAllLinkReferences code (Some []) = Inr (''0x'' @ code)"
  by (simp add: replaceAllLinkReferences_def)

lemma replaceAllLinkReferences_no_links:
  "list_all (\<lambda>(file, libraries). list_all (\<lambda>(libraryName, links). links = []) libraries) refs \<Longrightarrow>
   replaceAllLinkReferences code (Some refs) = Inr (''0x'' @ code)"
proof -
  have "list_all (\<lambda>(libraryName, links). links = []) libraries \<Longrightarrow>
        foldl (\<lambda>acc (libraryName, links). replaceLinkReferences acc links libraryName)
          code libraries = code" for libraries
    by (induction libraries) (auto simp add: replaceLinkReferences_def)
  moreover assume "list_all (\<lambda>(file, libraries). list_all (\<lambda>(libraryName, links). links = []) libraries) refs"
  then have "list_all (\<lambda>(libraryName, links). links = []) (concat (map snd refs))"
    by (induction refs) auto
  ultimately show ?thesis
    by (simp add: replaceAllLinkReferences_eq)
qed

section \<open>Output selection\<close>

lemma fold_object_assign_targets:
  "foldl object_assign m (map (\<lambda>target. (target, d)) ts) path =
     (if path \<in> set ts \<and> path \<noteq> ''__proto__'' then Some d else m path)"
  by (induction ts arbitrary: m) (auto simp add: object_assign_def)

lemma prepareOutputSelection_targets:
  "ts \<noteq> [] \<Longrightarrow>
     prepareOutputSelection (Some ts) path =
       (if path \<in> set ts \<and> path \<noteq> ''__proto__'' then Some defaultSelectors else None)"
  by (simp add: prepareOutputSelection_def fold_object_assign_targets)

lemma entry_selects_default:
  "entry_selects (Some defaultSelectors) [] ''ast''"
  "entry_selects (Some defaultSelectors) ''*'' ''abi''"
  "entry_selects None level output = False"
  by (simp_all add: entry_selects_def defaultSelectors_def)

text \<open>
  C3, as amended. With no targets (none given, or an empty list) the request holds the
  fixed selector set under the key \<^verbatim>\<open>*\<close>. With a non-empty list of targets it holds
  one entry per target, each the full fixed selector set, and no other entry: for a
  target both the ASTs and the contract outputs are requested, and for a file that is
  not a target (when no target is the path \<^verbatim>\<open>*\<close>) nothing is requested, the ASTs
  included. (A target whose path is \<^verbatim>\<open>__proto__\<close> gets no entry.)
\<close>

theorem prepareOutputSelection_spec:
  "prepareOutputSelection None = Map.empty(''*'' \<mapsto> defaultSelectors)
   \<and> prepareOutputSelection (Some []) = Map.empty(''*'' \<mapsto> defaultSelectors)
   \<and> (ts \<noteq> [] \<longrightarrow>
        prepareOutputSelection (Some ts) path =
          (if path \<in> set ts \<and> path \<noteq> ''__proto__'' then Some defaultSelectors else None))
   \<and> (ts \<noteq> [] \<and> path \<in> set ts \<and> path \<noteq> ''__proto__'' \<longrightarrow>
        requests (prepareOutputSelection (Some ts)) path [] ''ast''
        \<and> requests (prepareOutputSelection (Some ts)) path ''*'' ''abi'')
   \<and> (ts \<noteq> [] \<and> path \<notin> set ts \<and> ''*'' \<notin> set ts \<longrightarrow>
        \<not> requests (prepareOutputSelection (Some ts)) path level output)"
proof -
  have none: "prepareOutputSelection None = Map.empty(''*'' \<mapsto> defaultSelectors)"
    and nil: "prepareOutputSelection (Some []) = Map.empty(''*'' \<mapsto> defaultSelectors)"
    by (simp_all add: prepareOutputSelection_def)
  have target: "requests (prepareOutputSelection (Some ts)) path [] ''ast''
                \<and> requests (prepareOutputSelection (Some ts)) path ''*'' ''abi''"
    if "ts \<noteq> []" "path \<in> set ts" "path \<noteq> ''__proto__''"
    using that by (simp add: requests_def prepareOutputSelection_targets entry_selects_default)
  have other: "\<not> requests (prepareOutputSelection (Some ts)) path level output"
    if "ts \<noteq> []" "path \<notin> set ts" "''*'' \<notin> set ts"
    using that by (simp add: requests_def prepareOutputSelection_targets entry_selects_default)
  from none nil prepareOutputSelection_targets target other show ?thesis
    by blast
qed

theorem prepareOutputSelection_spec_witness:
  "[''a.sol''] \<noteq> [] \<and> ''a.sol'' \<in> set [''a.sol''] \<and> ''a.sol'' \<noteq> ''__proto__''
   \<and> ''b.sol'' \<notin> set [''a.sol''] \<and> ''*'' \<notin> set [''a.sol'']
   \<and> prepareOutputSelection (Some [''a.sol'']) ''a.sol'' = Some defaultSelectors
   \<and> requests (prepareOutputSelection (Some [''a.sol''])) ''a.sol'' [] ''ast''
   \<and> requests (prepareOutputSelection (Some [''a.sol''])) ''a.sol'' ''*'' ''abi''
   \<and> \<not> requests (prepareOutputSelection (Some [''a.sol''])) ''b.sol'' ''*'' ''abi''"
  using prepareOutputSelection_spec [of "[''a.sol'']" "''a.sol''"]
    prepareOutputSelection_spec [of "[''a.sol'']" "''b.sol''" "''*''" "''abi''"]
  by simp

text \<open>
  C3 as stated fails: with the single target \<^verbatim>\<open>a.sol\<close>, the request does not select
  the AST of the source file \<^verbatim>\<open>b.sol\<close>.
\<close>

theorem prepareOutputSelection_no_ast_for_others:
  "\<not> requests (prepareOutputSelection (Some [''a.sol''])) ''b.sol'' [] ''ast''"
  by (simp add: requests_def prepareOutputSelection_def object_assign_def entry_selects_def)

section \<open>Diagnostics\<close>

text \<open>The string primitives against their specification on lists.\<close>

lemma starts_with_iff: "starts_with s t = (\<exists>q. s = t @ q)"
  by (induction t arbitrary: s) (auto split: list.splits)

lemma js_includes_iff: "js_includes s t = (\<exists>p q. s = p @ t @ q)"
proof (induction s)
  case Nil
  then show ?case by simp
next
  case (Cons c s)
  have "(\<exists>p q. c # s = p @ t @ q) = ((\<exists>q. c # s = t @ q) \<or> (\<exists>p q. s = p @ t @ q))"
  proof
    assume "\<exists>p q. c # s = p @ t @ q"
    then obtain p q where pq: "c # s = p @ t @ q" by blast
    show "(\<exists>q. c # s = t @ q) \<or> (\<exists>p q. s = p @ t @ q)"
    proof (cases p)
      case Nil
      with pq show ?thesis by auto
    next
      case (Cons a p')
      with pq have "s = p' @ t @ q" by simp
      then show ?thesis by blast
    qed
  next
    assume "(\<exists>q. c # s = t @ q) \<or> (\<exists>p q. s = p @ t @ q)"
    then show "\<exists>p q. c # s = p @ t @ q"
    proof
      assume "\<exists>q. c # s = t @ q"
      then obtain q where "c # s = [] @ t @ q" by auto
      then show ?thesis by blast
    next
      assume "\<exists>p q. s = p @ t @ q"
      then obtain p q where "c # s = (c # p) @ t @ q" by auto
      then show ?thesis by blast
    qed
  qed
  with Cons show ?case by (simp add: starts_with_iff)
qed

lemma match_pragma_None_iff:
  "(match_pragma s = None) = (\<not> js_includes s ''pragma solidity'')"
  by (induction s) simp_all

lemma detectErrors_unfold:
  "detectErrors eol out opts =
     (let errors = joined_errors out opts;
          warnings = join (map formattedMessage
                       (if strict opts then []
                        else filter (\<lambda>d. severity d = ''warning'')
                               (case out of None \<Rightarrow> [] | Some ds \<Rightarrow> ds)))
      in if js_includes errors ''requires different compiler version''
         then (case match_pragma errors of
                 None \<Rightarrow> Inl TypeError
               | Some contractSolcVer \<Rightarrow>
                   (case solc_version opts of
                      None \<Rightarrow> Inl ReferenceError
                    | Some configSolcVer \<Rightarrow>
                        if configSolcVer = [] then Inl ReferenceError
                        else Inr (warnings,
                                  errors @ version_hint eol configSolcVer contractSolcVer)))
         else Inr (warnings, errors))"
  by (simp add: detectErrors_def joined_errors_def Let_def)

lemma joined_errors_all_diagnostics:
  "strict opts \<or> list_all (\<lambda>d. severity d \<noteq> ''warning'') ds \<Longrightarrow>
     joined_errors (Some ds) opts = join (map formattedMessage ds)"
proof -
  have "list_all (\<lambda>d. severity d \<noteq> ''warning'') ds \<Longrightarrow>
          filter (\<lambda>d. severity d \<noteq> ''warning'') ds = ds"
    by (induction ds) auto
  then show "strict opts \<or> list_all (\<lambda>d. severity d \<noteq> ''warning'') ds \<Longrightarrow>
     joined_errors (Some ds) opts = join (map formattedMessage ds)"
    by (auto simp add: joined_errors_def)
qed

text \<open>
  C10, as amended. When the joined error text contains \<^verbatim>\<open>requires different compiler version\<close>:
  if it has no match of \<^verbatim>\<open>/pragma solidity[^;]*/\<close> (that is, it does not contain
  \<^verbatim>\<open>pragma solidity\<close>), \<^verbatim>\<open>detectErrors\<close> throws a \<^verbatim>\<open>TypeError\<close>; if it has a match
  and the configured compiler version is falsy, it throws a \<^verbatim>\<open>ReferenceError\<close>. In both
  cases \<^verbatim>\<open>run\<close> ends with that error instead of a diagnostics report. The joined error
  text is that of all diagnostics in strict mode, or when none is a warning
  (\<open>joined_errors_all_diagnostics\<close>), and of those that are not warnings otherwise.
\<close>

theorem detectErrors_throws:
  "js_includes (joined_errors out opts) ''requires different compiler version'' \<Longrightarrow>
     (\<not> js_includes (joined_errors out opts) ''pragma solidity'' \<longrightarrow>
        detectErrors eol out opts = Inl TypeError
        \<and> run_diagnostics eol out opts = ([], Inl TypeError))
     \<and> (js_includes (joined_errors out opts) ''pragma solidity''
          \<and> (solc_version opts = None \<or> solc_version opts = Some []) \<longrightarrow>
        detectErrors eol out opts = Inl ReferenceError
        \<and> run_diagnostics eol out opts = ([], Inl ReferenceError))"
proof -
  assume needle: "js_includes (joined_errors out opts) ''requires different compiler version''"
  have type_error: "detectErrors eol out opts = Inl TypeError"
    if "\<not> js_includes (joined_errors out opts) ''pragma solidity''"
  proof -
    from that have "match_pragma (joined_errors out opts) = None"
      by (simp add: match_pragma_None_iff)
    with needle show ?thesis
      by (simp add: detectErrors_unfold Let_def)
  qed
  have reference_error: "detectErrors eol out opts = Inl ReferenceError"
    if "js_includes (joined_errors out opts) ''pragma solidity''"
      and "solc_version opts = None \<or> solc_version opts = Some []"
  proof -
    from that(1) obtain v where "match_pragma (joined_errors out opts) = Some v"
      using match_pragma_None_iff by fastforce
    with needle that(2) show ?thesis
      by (auto simp add: detectErrors_unfold Let_def)
  qed
  from type_error reference_error show ?thesis
    by (auto simp add: run_diagnostics_def)
qed


theorem detectErrors_throws_witness:
  "js_includes
     (joined_errors
        (Some [\<lparr>severity = ''error'',
                 formattedMessage = ''A.sol:1:1: SyntaxError: Source file requires different compiler version''\<rparr>])
        \<lparr>strict = False, quiet = False, solc_version = Some ''0.5.8''\<rparr>)
     ''requires different compiler version''
   \<and> \<not> js_includes
     (joined_errors
        (Some [\<lparr>severity = ''error'',
                 formattedMessage = ''A.sol:1:1: SyntaxError: Source file requires different compiler version''\<rparr>])
        \<lparr>strict = False, quiet = False, solc_version = Some ''0.5.8''\<rparr>)
     ''pragma solidity''
   \<and> detectErrors [CHR 0x0A]
        (Some [\<lparr>severity = ''error'',
                 formattedMessage = ''A.sol:1:1: SyntaxError: Source file requires different compiler version''\<rparr>])
        \<lparr>strict = False, quiet = False, solc_version = Some ''0.5.8''\<rparr>
       = Inl TypeError
   \<and> js_includes
     (joined_errors
        (Some [\<lparr>severity = ''error'',
                 formattedMessage = ''Source file requires different compiler version: pragma solidity ^0.4.0;''\<rparr>])
        \<lparr>strict = False, quiet = False, solc_version = None\<rparr>)
     ''requires different compiler version''
   \<and> js_includes
     (joined_errors
        (Some [\<lparr>severity = ''error'',
                 formattedMessage = ''Source file requires different compiler version: pragma solidity ^0.4.0;''\<rparr>])
        \<lparr>strict = False, quiet = False, solc_version = None\<rparr>)
     ''pragma solidity''
   \<and> detectErrors [CHR 0x0A]
        (Some [\<lparr>severity = ''error'',
                 formattedMessage = ''Source file requires different compiler version: pragma solidity ^0.4.0;''\<rparr>])
        \<lparr>strict = False, quiet = False, solc_version = None\<rparr>
       = Inl ReferenceError"
proof -
  let ?d1 = "Some [\<lparr>severity = ''error'',
                 formattedMessage = ''A.sol:1:1: SyntaxError: Source file requires different compiler version''\<rparr>]"
  let ?o1 = "\<lparr>strict = False, quiet = False, solc_version = Some ''0.5.8''\<rparr>"
  let ?d2 = "Some [\<lparr>severity = ''error'',
                 formattedMessage = ''Source file requires different compiler version: pragma solidity ^0.4.0;''\<rparr>]"
  let ?o2 = "\<lparr>strict = False, quiet = False, solc_version = None\<rparr>"
  have a1: "js_includes (joined_errors ?d1 ?o1) ''requires different compiler version''"
    by code_simp
  have b1: "\<not> js_includes (joined_errors ?d1 ?o1) ''pragma solidity''"
    by code_simp
  have a2: "js_includes (joined_errors ?d2 ?o2) ''requires different compiler version''"
    by code_simp
  have b2: "js_includes (joined_errors ?d2 ?o2) ''pragma solidity''"
    by code_simp
  from a1 b1 a2 b2
    detectErrors_throws [OF a1, of "[CHR 0x0A]"]
    detectErrors_throws [OF a2, of "[CHR 0x0A]"]
  show ?thesis
    by simp
qed

text \<open>
  C10 as stated, for any diagnostic list whose joined messages contain the phrase, fails:
  when the phrase stands in a warning and \<^verbatim>\<open>strict\<close> is false, the error text is
  empty and \<^verbatim>\<open>detectErrors\<close> returns the warning.
\<close>

theorem detectErrors_phrase_in_warning:
  "js_includes
     (join (map formattedMessage
        [\<lparr>severity = ''warning'',
           formattedMessage = ''A.sol:1:1: Warning: Source file requires different compiler version''\<rparr>]))
     ''requires different compiler version''
   \<and> \<not> js_includes
     (join (map formattedMessage
        [\<lparr>severity = ''warning'',
           formattedMessage = ''A.sol:1:1: Warning: Source file requires different compiler version''\<rparr>]))
     ''pragma solidity''
   \<and> detectErrors [CHR 0x0A]
        (Some [\<lparr>severity = ''warning'',
                 formattedMessage = ''A.sol:1:1: Warning: Source file requires different compiler version''\<rparr>])
        \<lparr>strict = False, quiet = False, solc_version = None\<rparr>
       = Inr (''A.sol:1:1: Warning: Source file requires different compiler version'', [])"
  by code_simp

section \<open>Strict mode\<close>

lemma filter_all_warnings:
  "list_all (\<lambda>d. severity d = ''warning'') ds \<Longrightarrow>
     filter (\<lambda>d. severity d \<noteq> ''warning'') ds = []
     \<and> filter (\<lambda>d. severity d = ''warning'') ds = ds"
  by (induction ds) auto

text \<open>
  C5, as amended. For a diagnostic list in which every severity is \<^verbatim>\<open>warning\<close>:
  with \<^verbatim>\<open>strict\<close> false, \<^verbatim>\<open>detectErrors\<close> returns the joined messages as warnings and
  the empty string as errors, and \<^verbatim>\<open>run\<close> logs the warnings (unless quiet, or there
  is nothing to log) and goes on to the success case; with \<^verbatim>\<open>strict\<close> true, \<^verbatim>\<open>run\<close>
  throws a \<^verbatim>\<open>CompileError\<close> carrying the joined messages when that text is not empty
  and does not contain \<^verbatim>\<open>requires different compiler version\<close>, and goes on to the
  success case when the text is empty.
\<close>

theorem strict_mode_warnings:
  "list_all (\<lambda>d. severity d = ''warning'') ds \<Longrightarrow>
     detectErrors eol (Some ds) (opts\<lparr>strict := False\<rparr>)
       = Inr (join (map formattedMessage ds), [])
     \<and> run_diagnostics eol (Some ds) (opts\<lparr>strict := False\<rparr>)
       = (if join (map formattedMessage ds) \<noteq> [] \<and> \<not> quiet opts
          then [eol @ ''    > compilation warnings encountered:'' @ eol,
                join (map formattedMessage ds)]
          else [],
          Inr ())
     \<and> (join (map formattedMessage ds) \<noteq> []
          \<and> \<not> js_includes (join (map formattedMessage ds)) ''requires different compiler version''
        \<longrightarrow> run_diagnostics eol (Some ds) (opts\<lparr>strict := True\<rparr>)
              = (if \<not> quiet opts then [[]] else [],
                 Inl (CompileError (join (map formattedMessage ds)))))
     \<and> (join (map formattedMessage ds) = []
        \<longrightarrow> run_diagnostics eol (Some ds) (opts\<lparr>strict := True\<rparr>) = ([], Inr ()))"
proof -
  assume w: "list_all (\<lambda>d. severity d = ''warning'') ds"
  note f = filter_all_warnings [OF w]
  have lax: "detectErrors eol (Some ds) (opts\<lparr>strict := False\<rparr>)
               = Inr (join (map formattedMessage ds), [])"
    using f by (simp add: detectErrors_def)
  have strict_plain: "detectErrors eol (Some ds) (opts\<lparr>strict := True\<rparr>)
               = Inr ([], join (map formattedMessage ds))"
    if "\<not> js_includes (join (map formattedMessage ds)) ''requires different compiler version''"
    using that by (simp add: detectErrors_def)
  have empty_plain:
    "\<not> js_includes (join (map formattedMessage ds)) ''requires different compiler version''"
    if "join (map formattedMessage ds) = []"
    using that by simp
  show ?thesis
    using lax strict_plain empty_plain
    by (auto simp add: run_diagnostics_def)
qed

theorem strict_mode_warnings_witness:
  "list_all (\<lambda>d. severity d = ''warning'')
     [\<lparr>severity = ''warning'', formattedMessage = ''Warning: unused variable''\<rparr>]
   \<and> join (map formattedMessage
        [\<lparr>severity = ''warning'', formattedMessage = ''Warning: unused variable''\<rparr>]) \<noteq> []
   \<and> \<not> js_includes (join (map formattedMessage
        [\<lparr>severity = ''warning'', formattedMessage = ''Warning: unused variable''\<rparr>]))
        ''requires different compiler version''
   \<and> run_diagnostics [CHR 0x0A]
        (Some [\<lparr>severity = ''warning'', formattedMessage = ''Warning: unused variable''\<rparr>])
        \<lparr>strict = False, quiet = False, solc_version = None\<rparr>
       = ([[CHR 0x0A] @ ''    > compilation warnings encountered:'' @ [CHR 0x0A],
           ''Warning: unused variable''], Inr ())
   \<and> run_diagnostics [CHR 0x0A]
        (Some [\<lparr>severity = ''warning'', formattedMessage = ''Warning: unused variable''\<rparr>])
        \<lparr>strict = True, quiet = False, solc_version = None\<rparr>
       = ([[]], Inl (CompileError ''Warning: unused variable''))
   \<and> list_all (\<lambda>d. severity d = ''warning'') []
   \<and> join (map formattedMessage ([] :: diagnostic list)) = []
   \<and> run_diagnostics [CHR 0x0A] (Some [])
        \<lparr>strict = True, quiet = False, solc_version = None\<rparr>
       = ([], Inr ())"
proof -
  let ?ds = "[\<lparr>severity = ''warning'', formattedMessage = ''Warning: unused variable''\<rparr>]"
  let ?o = "\<lparr>strict = False, quiet = False, solc_version = None\<rparr>"
  have w: "list_all (\<lambda>d. severity d = ''warning'') ?ds"
    by simp
  have n: "\<not> js_includes (join (map formattedMessage ?ds)) ''requires different compiler version''"
    by code_simp
  have e: "list_all (\<lambda>d. severity d = ''warning'') ([] :: diagnostic list)"
    by simp
  from w n
    strict_mode_warnings [OF w, of "[CHR 0x0A]" ?o]
    strict_mode_warnings [OF e, of "[CHR 0x0A]" ?o]
  show ?thesis
    by simp
qed

text \<open>
  C5 as stated fails: strict mode does not fail on the empty diagnostic list, nor on a
  single warning whose formatted message is empty. In both every diagnostic is a warning,
  and the joined text is empty.
\<close>

theorem strict_mode_no_diagnostics:
  "list_all (\<lambda>d. severity d = ''warning'') ([] :: diagnostic list)
   \<and> run_diagnostics [CHR 0x0A] (Some [])
        \<lparr>strict = True, quiet = False, solc_version = None\<rparr>
       = ([], Inr ())
   \<and> list_all (\<lambda>d. severity d = ''warning'')
        [\<lparr>severity = ''warning'', formattedMessage = []\<rparr>]
   \<and> run_diagnostics [CHR 0x0A]
        (Some [\<lparr>severity = ''warning'', formattedMessage = []\<rparr>])
        \<lparr>strict = True, quiet = False, solc_version = None\<rparr>
       = ([], Inr ())"
  by (simp add: run_diagnostics_def detectErrors_def)

section \<open>ABI ordering\<close>

lemma fold_object_assign_map_of:
  "foldl object_assign m es key =
     (if key = ''__proto__'' then m key
      else (case map_of (rev es) key of Some v \<Rightarrow> Some v | None \<Rightarrow> m key))"
proof -
  define p where "p = ''__proto__''"
  have assign: "object_assign m e k =
      (if fst e = p then m k else if k = fst e then Some (snd e) else m k)"
    for m :: "'a js_object" and e k
    by (simp add: object_assign_def p_def)
  have "foldl object_assign m es key =
     (if key = p then m key
      else (case map_of (rev es) key of Some v \<Rightarrow> Some v | None \<Rightarrow> m key))"
  proof (induction es arbitrary: m)
    case Nil
    then show ?case by simp
  next
    case (Cons e es)
    have "foldl object_assign m (e # es) key = foldl object_assign (object_assign m e) es key"
      by simp
    also have "\<dots> = (if key = p then object_assign m e key
        else (case map_of (rev es) key of Some v \<Rightarrow> Some v | None \<Rightarrow> object_assign m e key))"
      by (rule Cons.IH)
    also have "\<dots> = (if key = p then m key
        else (case map_of (rev (e # es)) key of Some v \<Rightarrow> Some v | None \<Rightarrow> m key))"
    proof (cases "key = p")
      case True
      then show ?thesis by (simp add: assign)
    next
      case False
      have one: "map_of [e] key = (if fst e = key then Some (snd e) else None)"
        by (cases e) simp
      show ?thesis
      proof (cases "map_of (rev es) key")
        case None
        with False one show ?thesis
          by (simp add: assign map_add_def)
      next
        case (Some v)
        with False show ?thesis
          by (simp add: map_add_def)
      qed
    qed
    finally show ?case .
  qed
  then show ?thesis
    by (simp only: p_def)
qed

lemma function_entries_zip:
  "map (\<lambda>(index, functionName). (property_key functionName, index)) (enumerate 0 names)
     = zip (map property_key names) [0..<length names]"
proof -
  have "map (\<lambda>(index, functionName). (property_key functionName, index)) (enumerate k names)
          = zip (map property_key names) [k..<k + length names]" for k
  proof (induction names arbitrary: k)
    case Nil
    then show ?case by simp
  next
    case (Cons n names)
    have a: "k + length (n # names) = Suc k + length names"
      by simp
    have "[k..<Suc k + length names] = k # [Suc k..<Suc k + length names]"
      by (rule upt_conv_Cons) simp
    then have "[k..<k + length (n # names)] = k # [Suc k..<Suc k + length names]"
      by (simp only: a)
    then show ?case
      by (simp only: list.map zip_Cons_Cons enumerate_simps Cons [of "Suc k"] prod.case)
  qed
  from this [of 0] show ?thesis
    by simp
qed

lemma declaration_index_None_iff:
  "(declaration_index keys k = None) = (k \<notin> set keys)"
proof -
  have "map fst (zip keys [0..<length keys]) = keys"
    by simp
  then have "fst ` set (zip keys [0..<length keys]) = set keys"
    by (metis set_map)
  then show ?thesis
    by (simp add: declaration_index_def map_of_eq_None_iff)
qed


lemma get_property_functionIndexes:
  assumes "k \<notin> set Object_prototype_keys"
  shows "get_property
           (foldl object_assign Map.empty
              (map (\<lambda>(index, functionName). (property_key functionName, index))
                 (enumerate 0 (map node_name
                    (filter (\<lambda>n. nodeType n = ''FunctionDefinition'') contract_nodes)))))
           k
         = (case declaration_index (function_keys contract_nodes) k of
              None \<Rightarrow> Undefined
            | Some i \<Rightarrow> Index i)"
proof -
  from assms have "k \<noteq> ''__proto__''"
    by (auto simp add: Object_prototype_keys_def)
  with assms show ?thesis
    by (simp add: get_property_def fold_object_assign_map_of function_entries_zip
        declaration_index_def function_keys_def comp_def split: option.splits)
qed

lemma insert_sorted_insort_key:
  assumes "\<forall>y \<in> set (x # ys). idx y = Index (f y)"
  shows "insert_sorted (\<lambda>a b. js_minus (idx a) (idx b)) x ys = insort_key f x ys"
  using assms by (induction ys) (auto simp add: js_minus_def)

lemma insertion_sort_sort_key:
  assumes "\<forall>y \<in> set xs. idx y = Index (f y)"
  shows "foldr (insert_sorted (\<lambda>a b. js_minus (idx a) (idx b))) xs [] = sort_key f xs"
  using assms
proof (induction xs)
  case Nil
  then show ?case by simp
next
  case (Cons x xs)
  then have "foldr (insert_sorted (\<lambda>a b. js_minus (idx a) (idx b))) xs [] = sort_key f xs"
    by simp
  moreover have "\<forall>y \<in> set (x # sort_key f xs). idx y = Index (f y)"
    using Cons.prems by simp
  ultimately show ?case
    using insert_sorted_insort_key [of x "sort_key f xs" idx f]
    by (simp add: sort_key_def)
qed

lemma insertion_sort_short:
  "length xs \<le> 1 \<Longrightarrow> foldr (insert_sorted comparefn) xs [] = xs"
proof (cases xs)
  case Nil
  then show ?thesis by simp
next
  case (Cons x ys)
  assume "length xs \<le> 1"
  with Cons have "ys = []" by simp
  with Cons show ?thesis by simp
qed

lemma consistent_index_comparator:
  assumes "\<forall>y \<in> set xs. idx y = Index (f y)"
  shows "consistent_comparator (\<lambda>a b. js_minus (idx a) (idx b)) xs"
proof -
  have "js_minus (idx a) (idx b) = Some (int (f a) - int (f b))"
    if "a \<in> set xs" "b \<in> set xs" for a b
    using that assms by (simp add: js_minus_def)
  then show ?thesis
    by (simp add: consistent_comparator_def list_all_iff)
qed

lemma js_sort_sort_key:
  assumes "\<forall>y \<in> set xs. idx y = Index (f y)"
  shows "js_sort engine_order (\<lambda>a b. js_minus (idx a) (idx b)) xs = sort_key f xs"
proof -
  have "js_sort engine_order (\<lambda>a b. js_minus (idx a) (idx b)) xs
          = foldr (insert_sorted (\<lambda>a b. js_minus (idx a) (idx b))) xs []"
    using consistent_index_comparator [OF assms]
    by (simp add: js_sort_def insertion_sort_short)
  then show ?thesis
    by (simp only: insertion_sort_sort_key [OF assms])
qed

text \<open>
  Two or more elements under a comparator that is not consistent (one that yields
  \<^verbatim>\<open>NaN\<close>, as the difference with an inherited member does): the engine decides.
\<close>

lemma js_sort_engine_defined:
  "1 < length xs \<Longrightarrow> \<not> consistent_comparator comparefn xs \<Longrightarrow>
     js_sort engine_order comparefn xs = engine_order comparefn xs"
  by (simp add: js_sort_def)

text \<open>
  Without a matching contract definition, or when that node has no \<^verbatim>\<open>nodes\<close>, the ABI
  is returned as it is.
\<close>

lemma orderABI_no_contract:
  "nodes tree = Some ast_nodes \<Longrightarrow>
   filter (\<lambda>n. nodeType n = ''ContractDefinition'' \<and> node_name n = Some cname) ast_nodes = [] \<Longrightarrow>
   orderABI engine_order entries cname tree = Inr entries"
  by (simp add: orderABI_def)

lemma orderABI_no_nodes:
  "nodes tree = Some ast_nodes \<Longrightarrow>
   filter (\<lambda>n. nodeType n = ''ContractDefinition'' \<and> node_name n = Some cname) ast_nodes
     = contractDefinition # others \<Longrightarrow>
   nodes contractDefinition = None \<Longrightarrow>
   orderABI engine_order entries cname tree = Inr entries"
  by (simp add: orderABI_def)

text \<open>
  When no ABI entry has a name that plain objects inherit from \<^verbatim>\<open>Object.prototype\<close>, the
  result is the entries whose name is not a key of the hash, in their order, followed by
  the entries whose name is one, sorted (stably) by the index the hash holds, whatever
  the engine.
\<close>

lemma orderABI_by_declaration_index:
  assumes "nodes tree = Some ast_nodes"
    and "filter (\<lambda>n. nodeType n = ''ContractDefinition'' \<and> node_name n = Some cname) ast_nodes
           = contractDefinition # others"
    and "nodes contractDefinition = Some contract_nodes"
    and "\<forall>e \<in> set entries. property_key (entry_name e) \<notin> set Object_prototype_keys"
  shows "orderABI engine_order entries cname tree =
     Inr (filter (\<lambda>e. property_key (entry_name e) \<notin> set (function_keys contract_nodes)) entries
          @ sort_key (\<lambda>e. the (declaration_index (function_keys contract_nodes)
                                  (property_key (entry_name e))))
              (filter (\<lambda>e. property_key (entry_name e) \<in> set (function_keys contract_nodes))
                 entries))"
proof -
  let ?fi = "foldl object_assign Map.empty
              (map (\<lambda>(index, functionName). (property_key functionName, index))
                 (enumerate 0 (map node_name
                    (filter (\<lambda>n. nodeType n = ''FunctionDefinition'') contract_nodes))))"
  let ?idx = "\<lambda>e. get_property ?fi (property_key (entry_name e))"
  let ?keys = "function_keys contract_nodes"
  let ?f = "\<lambda>e. the (declaration_index ?keys (property_key (entry_name e)))"
  have idx: "?idx e = (case declaration_index ?keys (property_key (entry_name e)) of
                         None \<Rightarrow> Undefined | Some i \<Rightarrow> Index i)"
    if "e \<in> set entries" for e
    using that assms(4) by (simp add: get_property_functionIndexes)
  have undef: "(?idx e = Undefined) = (property_key (entry_name e) \<notin> set ?keys)"
    if "e \<in> set entries" for e
    using idx [OF that] declaration_index_None_iff [of ?keys "property_key (entry_name e)"]
    by (auto split: option.splits)
  have first: "filter (\<lambda>e. ?idx e = Undefined) entries
                 = filter (\<lambda>e. property_key (entry_name e) \<notin> set ?keys) entries"
    using undef by (intro filter_cong) auto
  have second: "filter (\<lambda>e. ?idx e \<noteq> Undefined) entries
                 = filter (\<lambda>e. property_key (entry_name e) \<in> set ?keys) entries"
    using undef by (intro filter_cong) auto
  have "\<forall>e \<in> set (filter (\<lambda>e. property_key (entry_name e) \<in> set ?keys) entries).
          ?idx e = Index (?f e)"
  proof
    fix e
    assume "e \<in> set (filter (\<lambda>e. property_key (entry_name e) \<in> set ?keys) entries)"
    then have e: "e \<in> set entries" and k: "property_key (entry_name e) \<in> set ?keys"
      by auto
    from k obtain i where "declaration_index ?keys (property_key (entry_name e)) = Some i"
      using declaration_index_None_iff [of ?keys "property_key (entry_name e)"] by auto
    with idx [OF e] show "?idx e = Index (?f e)"
      by simp
  qed
  then have sorted: "js_sort engine_order (\<lambda>a b. js_minus (?idx a) (?idx b))
                       (filter (\<lambda>e. property_key (entry_name e) \<in> set ?keys) entries)
                     = sort_key ?f (filter (\<lambda>e. property_key (entry_name e) \<in> set ?keys) entries)"
    by (rule js_sort_sort_key)
  have "orderABI engine_order entries cname tree =
          Inr (filter (\<lambda>e. ?idx e = Undefined) entries
               @ js_sort engine_order (\<lambda>a b. js_minus (?idx a) (?idx b))
                   (filter (\<lambda>e. ?idx e \<noteq> Undefined) entries))"
    using assms(1-3) by (simp add: orderABI_def Let_def)
  then show ?thesis
    unfolding first second sorted .
qed

text \<open>
  C4. Membership is decided by \<^verbatim>\<open>functionIndexes[name] === undefined\<close>, and that lookup
  also finds what the hash inherits. Contract \<^verbatim>\<open>A\<close> defines the one function \<^verbatim>\<open>f\<close>;
  its ABI lists \<^verbatim>\<open>valueOf\<close> and \<^verbatim>\<open>g\<close> (inherited from a base contract), neither of
  which is in the hash. \<^verbatim>\<open>orderABI\<close> moves \<^verbatim>\<open>valueOf\<close> behind \<^verbatim>\<open>g\<close>, on every
  engine: the array that is sorted has the one element \<^verbatim>\<open>valueOf\<close>.
\<close>

theorem orderABI_inherited_name:
  "orderABI engine_order
     [\<lparr>entry_type = ''function'', entry_name = Some ''valueOf''\<rparr>,
      \<lparr>entry_type = ''function'', entry_name = Some ''g''\<rparr>]
     ''A''
     (AstNode ''SourceUnit'' None
        (Some [AstNode ''ContractDefinition'' (Some ''A'')
                 (Some [AstNode ''FunctionDefinition'' (Some ''f'') None])]))
   = Inr [\<lparr>entry_type = ''function'', entry_name = Some ''g''\<rparr>,
          \<lparr>entry_type = ''function'', entry_name = Some ''valueOf''\<rparr>]"
  by (simp add: orderABI_def js_sort_def get_property_def object_assign_def property_key_def
      Object_prototype_keys_def enumerate_eq_zip)

section \<open>Shimming an artifact list\<close>

lemma map_result_unbound:
  "xs \<noteq> [] \<Longrightarrow> map_result (shimContract This_unbound) xs = Inl TypeError"
  by (cases xs) (simp_all add: shimContract_def)

lemma shimOutput_throws:
  "contracts output \<noteq> [] \<Longrightarrow> shimOutput this output = Inl TypeError"
  by (cases this) (simp_all add: shimOutput_def map_result_unbound)

lemma shimOutput_no_contracts:
  "contracts output = [] \<Longrightarrow>
   shimOutput (This_module m) output = Inr (Map.empty, sourceIndexes output, compilerInfo output)"
  by (simp add: shimOutput_def)

text \<open>
  Called with its module as receiver, \<^verbatim>\<open>shimContract\<close> of \<^verbatim>\<open>unnamed/part_000\<close> renames
  \<^verbatim>\<open>contractName\<close> and copies the bytecode into \<^verbatim>\<open>unlinked_binary\<close>;
  \<^verbatim>\<open>shimBytecode\<close> of \<^verbatim>\<open>legacy/shims.js\<close> turns a string into \<^verbatim>\<open>0xundefined\<close>.
\<close>

lemma shimContract_unnamed:
  "shimContract (This_module Unnamed_shims) contract =
     Inr \<lparr> contract_name = contractName contract,
           sourcePath' = sourcePath contract,
           source' = source contract,
           sourceMap' = sourceMap contract,
           deployedSourceMap' = deployedSourceMap contract,
           legacyAST' = legacyAST contract,
           ast' = ast contract,
           abi' = abi contract,
           metadata' = metadata contract,
           bytecode' = bytecode contract,
           deployedBytecode' = deployedBytecode contract,
           unlinked_binary = bytecode contract,
           compiler' = compiler contract,
           devdoc' = devdoc contract,
           userdoc' = userdoc contract \<rparr>"
  by (simp add: shimContract_def module_shimBytecode_def shimBytecode_unnamed_def)

lemma shimBytecode_string:
  "shimBytecode (Bytecode_string s) = Inr (Bytecode_string ''0xundefined'')"
  by (simp add: shimBytecode_def)

text \<open>
  C9. \<^verbatim>\<open>shimOutput\<close>, called as a method of either module on a list that holds the
  artifact \<^verbatim>\<open>Foo\<close> with bytecode \<^verbatim>\<open>0xdead\<close>, throws a \<^verbatim>\<open>TypeError\<close>: \<^verbatim>\<open>map\<close>
  calls \<^verbatim>\<open>shimContract\<close> without a receiver, and \<^verbatim>\<open>this.shimBytecode\<close> is not a
  function there.
\<close>

theorem shimOutput_Foo:
  "shimOutput (This_module Unnamed_shims)
     \<lparr> contracts =
         [\<lparr> contractName = ''Foo'', sourcePath = ''Foo.sol'', source = [], sourceMap = [],
            deployedSourceMap = [], legacyAST = [], ast = [], abi = [], metadata = [],
            bytecode = Bytecode_string ''0xdead'',
            deployedBytecode = Bytecode_string ''0xdead'',
            compiler = [], devdoc = [], userdoc = [] \<rparr>],
       sourceIndexes = [''Foo.sol''], compilerInfo = ''solc'' \<rparr>
     = Inl TypeError
   \<and> shimOutput (This_module Legacy_shims)
     \<lparr> contracts =
         [\<lparr> contractName = ''Foo'', sourcePath = ''Foo.sol'', source = [], sourceMap = [],
            deployedSourceMap = [], legacyAST = [], ast = [], abi = [], metadata = [],
            bytecode = Bytecode_string ''0xdead'',
            deployedBytecode = Bytecode_string ''0xdead'',
            compiler = [], devdoc = [], userdoc = [] \<rparr>],
       sourceIndexes = [''Foo.sol''], compilerInfo = ''solc'' \<rparr>
     = Inl TypeError"
  by (simp add: shimOutput_def shimContract_def)

end
